theory Spec2Isabelle
  imports Main
begin

section \<open>The syntax tree handed to the plugin\<close>

text \<open>
  The plugin of \<^verbatim>\<open>src/index.ts\<close> works on the top-level statement list of a parsed
  module. Only the parts of a node that the code reads or writes are modelled by name;
  source positions stand for the metadata that the object spreads copy along.

  Strings are lists of \<^typ>\<open>char\<close>; each \<^typ>\<open>char\<close> stands for one code unit below 256.
  A property whose value may be \<^verbatim>\<open>undefined\<close> is an \<^typ>\<open>'a option\<close>.
\<close>

type_synonym Span = "nat \<times> nat \<times> nat"

record Identifier =
  ident_value :: string
  ident_span :: Span

datatype SpecifierType = ImportSpecifier | ImportDefaultSpecifier | ImportNamespaceSpecifier

text \<open>
  One record for the three specifier shapes, as the code treats them: it reads
  \<^verbatim>\<open>type\<close>, \<^verbatim>\<open>local\<close> and, guarded by \<^verbatim>\<open>?.\<close>, \<^verbatim>\<open>imported\<close>. A named specifier written
  without \<^verbatim>\<open>as\<close> comes from the parser with \<^verbatim>\<open>imported\<close> absent, which is why the code
  falls back on \<^verbatim>\<open>local.value\<close> (line 120) and why the repository's test
  "should skip default conversion" expects \<^verbatim>\<open>import Row from ...\<close>.
\<close>

record Specifier =
  spec_type :: SpecifierType
  local :: Identifier
  imported :: "Identifier option"
  spec_span :: Span

record StringLiteral =
  lit_value :: "string option"
  lit_span :: Span

record ImportDeclarationNode =
  source :: StringLiteral
  specifiers :: "Specifier list"
  decl_span :: Span
  typeOnly :: bool

text \<open>A module item is an import declaration or any other statement, kept opaque.\<close>

datatype ModuleItem = ImportDeclaration ImportDeclarationNode | OtherItem string

section \<open>Options\<close>

text \<open>
  \<^verbatim>\<open>transform\<close> is typed \<^verbatim>\<open>string\<close> in \<^verbatim>\<open>SubOpts\<close> but read as \<^verbatim>\<open>any\<close>: a string, a
  function from the member name to a path, or missing. A function either returns a
  string or throws.
\<close>

datatype CallResult = Returns string | Throws string

datatype TransformOption =
    TUndefined
  | TString string
  | TFunction "string \<Rightarrow> CallResult"

record SubOpts =
  transform :: TransformOption
  preventFullImport :: bool
  skipDefaultConversion :: bool
  style :: bool

text \<open>What the caller passes to the constructor: every field but \<^verbatim>\<open>transform\<close> may be left out.\<close>

record RawSubOpts =
  raw_transform :: TransformOption
  raw_preventFullImport :: "bool option"
  raw_skipDefaultConversion :: "bool option"
  raw_style :: "bool option"

type_synonym Opts = "string \<rightharpoonup> SubOpts"

text \<open>
  The constructor (lines 70--80) spreads \<^verbatim>\<open>DEFAULT_OPTS\<close> and then the supplied rule into a
  fresh object for every key.
\<close>

definition with_defaults :: "RawSubOpts \<Rightarrow> SubOpts" where
  "with_defaults r =
     \<lparr> transform = raw_transform r,
       preventFullImport = (case raw_preventFullImport r of None \<Rightarrow> False | Some b \<Rightarrow> b),
       skipDefaultConversion = (case raw_skipDefaultConversion r of None \<Rightarrow> False | Some b \<Rightarrow> b),
       style = (case raw_style r of None \<Rightarrow> False | Some b \<Rightarrow> b) \<rparr>"

definition PluginTransformImport :: "(string \<rightharpoonup> RawSubOpts) \<Rightarrow> Opts" where
  "PluginTransformImport opts = (\<lambda>key. map_option with_defaults (opts key))"

section \<open>Errors\<close>

text \<open>
  \<^verbatim>\<open>barf\<close> throws an \<^verbatim>\<open>Error\<close> whose message starts with the plugin's prefix. An exception
  that a user's transform function throws is not made by \<^verbatim>\<open>barf\<close>; it leaves the plugin
  as it is.
\<close>

datatype error = PluginError string | CalleeError string

definition barf :: "string \<Rightarrow> error + 'a" where
  "barf msg = Inl (PluginError (''swc-plugin-transform-imports: '' @ msg))"

section \<open>The regular expressions of \<^verbatim>\<open>transformImportPath\<close>\<close>

text \<open>
  With the flag \<^verbatim>\<open>i\<close> (and without \<^verbatim>\<open>u\<close>) two code units match when their upper-case
  forms agree. Among the code units below 256 only the ASCII letter itself and its other
  case canonicalise to an ASCII letter, so ASCII case folding is exact for the letters
  the two patterns contain.
\<close>

definition canonicalize :: "char \<Rightarrow> char" where
  "canonicalize c =
     (if 97 \<le> (of_char c :: nat) \<and> (of_char c :: nat) \<le> 122
      then char_of ((of_char c :: nat) - 32) else c)"

fun match_literal_ci :: "string \<Rightarrow> string \<Rightarrow> string option" where
  "match_literal_ci [] s = Some s"
| "match_literal_ci (p # ps) [] = None"
| "match_literal_ci (p # ps) (c # cs) =
     (if canonicalize c = canonicalize p then match_literal_ci ps cs else None)"

text \<open>The class \<^verbatim>\<open>\s\<close>, on code units below 256: TAB, LF, VT, FF, CR, space, NBSP.\<close>

definition is_js_whitespace :: "char \<Rightarrow> bool" where
  "is_js_whitespace c =
     (c \<in> set [CHR 0x09, CHR 0x0A, CHR 0x0B, CHR 0x0C, CHR 0x0D, CHR 0x20, CHR 0xA0])"

text \<open>
  \<^verbatim>\<open>\s?\<close> is greedy. It never has to give its character back: what follows it in the
  pattern (\<^verbatim>\<open>m\<close>, \<^verbatim>\<open>}\<close>) is not white space.
\<close>

definition opt_whitespace :: "string \<Rightarrow> string" where
  "opt_whitespace s = (case s of [] \<Rightarrow> [] | c # cs \<Rightarrow> if is_js_whitespace c then cs else s)"

text \<open>
  \<^verbatim>\<open>/\$\{\s?member\s?\}/i\<close> tried at the start of \<open>s\<close>: the rest of \<open>s\<close> after the match.
\<close>

definition match_placeholder :: "string \<Rightarrow> string option" where
  "match_placeholder s =
     (case match_literal_ci ''${'' s of
        None \<Rightarrow> None
      | Some s1 \<Rightarrow>
          (case match_literal_ci ''member'' (opt_whitespace s1) of
             None \<Rightarrow> None
           | Some s2 \<Rightarrow> match_literal_ci ''}'' (opt_whitespace s2)))"

text \<open>
  \<^verbatim>\<open>String.prototype.replace\<close> with a string as second argument expands that string as
  a replacement pattern at every match: \<^verbatim>\<open>$$\<close> is a dollar sign, \<^verbatim>\<open>$&\<close> the matched text,
  \<^verbatim>\<open>$\<close> with a backquote the text before the match, \<^verbatim>\<open>$\<close> with a quote the text after
  it. The expression has no capture group, so \<^verbatim>\<open>$1\<close> and \<^verbatim>\<open>$<name>\<close> stay as written.
\<close>

fun GetSubstitution :: "string \<Rightarrow> string \<Rightarrow> string \<Rightarrow> string \<Rightarrow> string" where
  "GetSubstitution matched preceding following [] = []"
| "GetSubstitution matched preceding following [c] = [c]"
| "GetSubstitution matched preceding following (c # d # r) =
     (if c = CHR ''$'' then
        (if d = CHR ''$'' then CHR ''$'' # GetSubstitution matched preceding following r
         else if d = CHR ''&'' then matched @ GetSubstitution matched preceding following r
         else if d = CHR 0x60 then preceding @ GetSubstitution matched preceding following r
         else if d = CHR 0x27 then following @ GetSubstitution matched preceding following r
         else c # GetSubstitution matched preceding following (d # r))
      else c # GetSubstitution matched preceding following (d # r))"

lemma match_literal_ci_length:
  "match_literal_ci p s = Some r \<Longrightarrow> length s = length p + length r"
  by (induction p s rule: match_literal_ci.induct) (auto split: if_splits)

lemma opt_whitespace_length: "length (opt_whitespace s) \<le> length s"
  by (simp add: opt_whitespace_def split: list.splits)

lemma match_placeholder_length:
  assumes "match_placeholder s = Some r"
  shows "length r + 9 \<le> length s"
proof -
  from assms obtain s1 s2 where
    a: "match_literal_ci ''${'' s = Some s1" and
    b: "match_literal_ci ''member'' (opt_whitespace s1) = Some s2" and
    c: "match_literal_ci ''}'' (opt_whitespace s2) = Some r"
    by (auto simp: match_placeholder_def split: option.splits)
  from match_literal_ci_length[OF a] match_literal_ci_length[OF b]
    match_literal_ci_length[OF c] opt_whitespace_length[of s1] opt_whitespace_length[of s2]
  show ?thesis by simp
qed

text \<open>
  The flag \<^verbatim>\<open>g\<close>: matches are looked for from left to right, each search starting
  where the last match ended; the text between matches is copied. \<open>preceding\<close> is the part
  of the whole string that lies left of \<open>s\<close>.
\<close>

function replace_global :: "string \<Rightarrow> string \<Rightarrow> string \<Rightarrow> string" where
  "replace_global preceding [] rep = []"
| "replace_global preceding (c # cs) rep =
     (case match_placeholder (c # cs) of
        None \<Rightarrow> c # replace_global (preceding @ [c]) cs rep
      | Some rest \<Rightarrow>
          (let matched = take (length (c # cs) - length rest) (c # cs)
           in GetSubstitution matched preceding rest rep
              @ replace_global (preceding @ matched) rest rep))"
  by pat_completeness auto
termination
proof (relation "measure (\<lambda>(preceding, s, rep). length s)", goal_cases)
  case 1
  show ?case by simp
next
  case (2 preceding c cs rep)
  show ?case by simp
next
  case (3 preceding c cs rep rest matched)
  from match_placeholder_length[OF 3(1)] show ?case by simp
qed

text \<open>\<^verbatim>\<open>/\.js$/i.test(s) && !/[\$\{\}]/.test(s)\<close>\<close>

definition ends_with_js :: "string \<Rightarrow> bool" where
  "ends_with_js s = (3 \<le> length s \<and> match_literal_ci ''.js'' (drop (length s - 3) s) = Some [])"

definition has_template_char :: "string \<Rightarrow> bool" where
  "has_template_char s = (\<exists>c \<in> set s. c = CHR ''$'' \<or> c = CHR ''{'' \<or> c = CHR ''}'')"

definition is_js_file :: "string \<Rightarrow> bool" where
  "is_js_file s = (ends_with_js s \<and> \<not> has_template_char s)"

section \<open>\<^verbatim>\<open>transformImportPath\<close>\<close>

text \<open>
  \<^verbatim>\<open>require\<close> is the host's module loader; the plugin only sees whether it throws and
  whether what it returns is a function.
\<close>

datatype Required = RequireThrows | ExportsFunction "string \<Rightarrow> CallResult" | ExportsOther

definition call_transform :: "(string \<Rightarrow> CallResult) \<Rightarrow> string \<Rightarrow> error + string option" where
  "call_transform transformFn importName =
     (case transformFn importName of
        Returns p \<Rightarrow> Inr (Some p)
      | Throws e \<Rightarrow> Inl (CalleeError e))"

text \<open>
  Lines 41--65. The result is \<open>None\<close> where the function returns \<^verbatim>\<open>undefined\<close>: a missing
  or empty \<^verbatim>\<open>transform\<close> is falsy and takes the first \<^verbatim>\<open>return\<close>.
\<close>

definition transformImportPath ::
  "(string \<Rightarrow> Required) \<Rightarrow> TransformOption \<Rightarrow> string \<Rightarrow> error + string option" where
  "transformImportPath require transformOption importName =
     (case transformOption of
        TUndefined \<Rightarrow> Inr None
      | TFunction f \<Rightarrow> call_transform f importName
      | TString s \<Rightarrow>
          if s = [] then Inr None
          else if is_js_file s then
            (case require s of
               RequireThrows \<Rightarrow> barf (''failed to require transform file '' @ s)
             | ExportsOther \<Rightarrow> barf (''expected transform function to be exported from '' @ s)
             | ExportsFunction transformFn \<Rightarrow> call_transform transformFn importName)
          else Inr (Some (replace_global [] s importName)))"

section \<open>\<^verbatim>\<open>visitModuleItems\<close>\<close>

text \<open>
  \<^verbatim>\<open>this.opts\<close> starts as \<^verbatim>\<open>{}\<close> and gets one own property per configured module, so
  its prototype is \<^verbatim>\<open>Object.prototype\<close>. The operator \<^verbatim>\<open>in\<close> of line 94 also finds the
  properties that every object inherits from there. (A table with an own key
  \<^verbatim>\<open>__proto__\<close> would replace that prototype; such tables are not modelled.)
\<close>

definition object_prototype_keys :: "string list" where
  "object_prototype_keys =
     [''constructor'', ''hasOwnProperty'', ''isPrototypeOf'', ''propertyIsEnumerable'',
      ''toLocaleString'', ''toString'', ''valueOf'', ''__proto__'',
      ''__defineGetter__'', ''__defineSetter__'', ''__lookupGetter__'', ''__lookupSetter__'']"

definition has_property :: "Opts \<Rightarrow> string \<Rightarrow> bool" where
  "has_property opts key = (opts key \<noteq> None \<or> key \<in> set object_prototype_keys)"

text \<open>
  What the destructuring of line 106 reads from an inherited property (a built-in
  function, or \<^verbatim>\<open>Object.prototype\<close> itself): none of the four fields is there, every one
  is \<^verbatim>\<open>undefined\<close>, which is falsy.
\<close>

definition inherited_property :: SubOpts where
  "inherited_property =
     \<lparr> transform = TUndefined, preventFullImport = False,
       skipDefaultConversion = False, style = False \<rparr>"

definition get_property :: "Opts \<Rightarrow> string \<Rightarrow> SubOpts" where
  "get_property opts key = (case opts key of Some rule \<Rightarrow> rule | None \<Rightarrow> inherited_property)"

text \<open>A property key, and a template literal, turn \<^verbatim>\<open>undefined\<close> into the string of that name.\<close>

definition ToString :: "string option \<Rightarrow> string" where
  "ToString v = (case v of None \<Rightarrow> ''undefined'' | Some s \<Rightarrow> s)"

definition isValidTranformCandidate :: "Opts \<Rightarrow> ModuleItem \<Rightarrow> bool" where
  "isValidTranformCandidate opts node =
     (case node of
        ImportDeclaration d \<Rightarrow> has_property opts (ToString (lit_value (source d)))
      | OtherItem s \<Rightarrow> False)"

definition isDefaultImportExist :: "Specifier list \<Rightarrow> bool" where
  "isDefaultImportExist specs = (\<exists>specifier \<in> set specs. spec_type specifier = ImportDefaultSpecifier)"

text \<open>Lines 119--121: \<^verbatim>\<open>specifier?.imported?.value\<close> is truthy for a non-empty string.\<close>

definition doesImportedValueExist :: "Specifier \<Rightarrow> bool" where
  "doesImportedValueExist specifier =
     (spec_type specifier = ImportSpecifier \<and>
      (case imported specifier of None \<Rightarrow> False | Some i \<Rightarrow> ident_value i \<noteq> []))"

definition actualImportVariable :: "Specifier \<Rightarrow> string" where
  "actualImportVariable specifier =
     (if doesImportedValueExist specifier
      then (case imported specifier of None \<Rightarrow> [] | Some i \<Rightarrow> ident_value i)
      else ident_value (local specifier))"

definition newSpecifier :: "SubOpts \<Rightarrow> Specifier \<Rightarrow> Specifier" where
  "newSpecifier rule specifier =
     (if skipDefaultConversion rule \<and> doesImportedValueExist specifier then specifier
      else specifier\<lparr> imported := None, spec_type := ImportDefaultSpecifier \<rparr>)"

definition copyNode :: "SubOpts \<Rightarrow> ImportDeclarationNode \<Rightarrow> Specifier \<Rightarrow> string option \<Rightarrow> ModuleItem" where
  "copyNode rule node specifier v =
     ImportDeclaration (node\<lparr> source := (source node)\<lparr> lit_value := v \<rparr>,
                              specifiers := [newSpecifier rule specifier] \<rparr>)"

definition styleNode :: "ImportDeclarationNode \<Rightarrow> string option \<Rightarrow> ModuleItem" where
  "styleNode node v =
     ImportDeclaration (node\<lparr> source := (source node)\<lparr> lit_value := Some (ToString v @ ''/style'') \<rparr>,
                              specifiers := [] \<rparr>)"

definition nameImportsFilteredNode :: "ImportDeclarationNode \<Rightarrow> Specifier \<Rightarrow> ModuleItem" where
  "nameImportsFilteredNode node specifier = ImportDeclaration (node\<lparr> specifiers := [specifier] \<rparr>)"

text \<open>
  The inner loop (lines 117--176). \<open>transformedNodes\<close> is the array the code pushes to;
  a throw ends the whole call.
\<close>

fun visit_specifiers ::
  "(string \<Rightarrow> Required) \<Rightarrow> SubOpts \<Rightarrow> ImportDeclarationNode \<Rightarrow> Specifier list
     \<Rightarrow> ModuleItem list \<Rightarrow> error + ModuleItem list" where
  "visit_specifiers require rule node [] transformedNodes = Inr transformedNodes"
| "visit_specifiers require rule node (specifier # rest) transformedNodes =
     (if spec_type specifier = ImportSpecifier then
        (case transformImportPath require (transform rule) (actualImportVariable specifier) of
           Inl e \<Rightarrow> Inl e
         | Inr v \<Rightarrow>
             visit_specifiers require rule node rest
               (transformedNodes @ [copyNode rule node specifier v]
                  @ (if style rule then [styleNode node v] else [])))
      else if spec_type specifier = ImportDefaultSpecifier then
        visit_specifiers require rule node rest
          (transformedNodes @ [nameImportsFilteredNode node specifier])
      else visit_specifiers require rule node rest transformedNodes)"

text \<open>The outer loop (lines 91--177).\<close>

fun visit_nodes ::
  "(string \<Rightarrow> Required) \<Rightarrow> Opts \<Rightarrow> ModuleItem list \<Rightarrow> ModuleItem list
     \<Rightarrow> error + ModuleItem list" where
  "visit_nodes require opts [] transformedNodes = Inr transformedNodes"
| "visit_nodes require opts (node # nodes) transformedNodes =
     (if \<not> isValidTranformCandidate opts node then
        visit_nodes require opts nodes (transformedNodes @ [node])
      else
        (case node of
           OtherItem s \<Rightarrow> visit_nodes require opts nodes (transformedNodes @ [node])
         | ImportDeclaration d \<Rightarrow>
             (let rule = get_property opts (ToString (lit_value (source d))) in
              if isDefaultImportExist (specifiers d) \<and> preventFullImport rule then
                barf (''Import of entire module '' @ ToString (lit_value (source d))
                      @ '' not allowed due to preventFullImport setting'')
              else
                (case visit_specifiers require rule d (specifiers d) transformedNodes of
                   Inl e \<Rightarrow> Inl e
                 | Inr transformedNodes' \<Rightarrow> visit_nodes require opts nodes transformedNodes'))))"

definition visitModuleItems ::
  "(string \<Rightarrow> Required) \<Rightarrow> Opts \<Rightarrow> ModuleItem list \<Rightarrow> error + ModuleItem list" where
  "visitModuleItems require opts nodes =
     (if dom opts = {} then Inr nodes else visit_nodes require opts nodes [])"

text \<open>
  The names the specification gives to the two kinds of error that \<^verbatim>\<open>barf\<close> raises.
\<close>

definition FullImportNotAllowed :: "string \<Rightarrow> error" where
  "FullImportNotAllowed module_name =
     PluginError (''swc-plugin-transform-imports: Import of entire module '' @ module_name
                  @ '' not allowed due to preventFullImport setting'')"

definition TransformFunctionError :: "string \<Rightarrow> error \<Rightarrow> bool" where
  "TransformFunctionError reference e =
     (e = PluginError (''swc-plugin-transform-imports: failed to require transform file '' @ reference)
      \<or> e = PluginError (''swc-plugin-transform-imports: expected transform function to be exported from '' @ reference))"

section \<open>Concrete syntax trees\<close>

text \<open>
  The trees the host parser builds for the import forms, with every source position at
  zero. \<open>import_named ''A''\<close> is the specifier of \<^verbatim>\<open>import { A }\<close>, \<open>import_as ''B'' ''C''\<close> that
  of \<^verbatim>\<open>import { B as C }\<close>, \<open>import_default ''D''\<close> that of \<^verbatim>\<open>import D\<close>, and
  \<open>import_namespace ''NS''\<close> that of \<^verbatim>\<open>import * as NS\<close>.
\<close>

definition Ident :: "string \<Rightarrow> Identifier" where
  "Ident name = \<lparr> ident_value = name, ident_span = (0, 0, 0) \<rparr>"

definition import_named :: "string \<Rightarrow> Specifier" where
  "import_named name =
     \<lparr> spec_type = ImportSpecifier, local = Ident name, imported = None, spec_span = (0, 0, 0) \<rparr>"

definition import_as :: "string \<Rightarrow> string \<Rightarrow> Specifier" where
  "import_as name alias =
     \<lparr> spec_type = ImportSpecifier, local = Ident alias, imported = Some (Ident name),
       spec_span = (0, 0, 0) \<rparr>"

definition import_default :: "string \<Rightarrow> Specifier" where
  "import_default name =
     \<lparr> spec_type = ImportDefaultSpecifier, local = Ident name, imported = None,
       spec_span = (0, 0, 0) \<rparr>"

definition import_namespace :: "string \<Rightarrow> Specifier" where
  "import_namespace name =
     \<lparr> spec_type = ImportNamespaceSpecifier, local = Ident name, imported = None,
       spec_span = (0, 0, 0) \<rparr>"

definition import_node :: "Specifier list \<Rightarrow> string option \<Rightarrow> ImportDeclarationNode" where
  "import_node specs path =
     \<lparr> source = \<lparr> lit_value = path, lit_span = (0, 0, 0) \<rparr>, specifiers = specs,
       decl_span = (0, 0, 0), typeOnly = False \<rparr>"

definition import_from :: "Specifier list \<Rightarrow> string option \<Rightarrow> ModuleItem" where
  "import_from specs path = ImportDeclaration (import_node specs path)"

text \<open>A rule that gives only \<^verbatim>\<open>transform\<close>, and a loader that finds no file.\<close>

definition only_transform :: "string \<Rightarrow> RawSubOpts" where
  "only_transform template =
     \<lparr> raw_transform = TString template, raw_preventFullImport = None,
       raw_skipDefaultConversion = None, raw_style = None \<rparr>"

definition no_files :: "string \<Rightarrow> Required" where
  "no_files path = RequireThrows"

section \<open>The placeholder, in the words of the specification\<close>

text \<open>
  A second reading of the substitution, made from the specification and not from the
  regular expression, to compare the code with. A placeholder token is \<^verbatim>\<open>${\<close>, at most
  one white-space character, the word \<^verbatim>\<open>member\<close> in any mix of upper and lower case, at
  most one white-space character, and \<^verbatim>\<open>}\<close>. It is recognised here from both ends of the
  token, by lower-casing the word.
\<close>

definition ascii_lower :: "char \<Rightarrow> char" where
  "ascii_lower c =
     (if 65 \<le> (of_char c :: nat) \<and> (of_char c :: nat) \<le> 90
      then char_of ((of_char c :: nat) + 32) else c)"

definition placeholder_token :: "string \<Rightarrow> bool" where
  "placeholder_token t =
     (take 2 t = ''${'' \<and> 3 \<le> length t \<and> last t = CHR ''}'' \<and>
      map ascii_lower (rev (opt_whitespace (rev (opt_whitespace (butlast (drop 2 t))))))
        = ''member'')"

text \<open>A token is 9 to 11 characters long; \<open>token_at s\<close> is the length of the one \<open>s\<close> starts with.\<close>

definition token_at :: "string \<Rightarrow> nat option" where
  "token_at s = find (\<lambda>n. placeholder_token (take n s)) [9, 10, 11]"

lemma token_at_Some:
  assumes "token_at s = Some n"
  shows "placeholder_token (take n s)" and "0 < n"
proof -
  from assms have "placeholder_token (take n s) \<and> n \<in> set [9, 10, 11]"
    unfolding token_at_def find_Some_iff by (auto simp: nth_Cons' split: if_splits)
  then show "placeholder_token (take n s)" and "0 < n" by auto
qed

lemma token_at_None:
  assumes "token_at s = None" and "n = 9 \<or> n = 10 \<or> n = 11"
  shows "\<not> placeholder_token (take n s)"
  using assms unfolding token_at_def find_None_iff by auto

text \<open>
  The template is read from left to right. Where a token starts, the member name is
  written and reading goes on behind the token; every other character is copied.
\<close>

function substitute_tokens :: "string \<Rightarrow> string \<Rightarrow> string" where
  "substitute_tokens [] member = []"
| "substitute_tokens (c # cs) member =
     (case token_at (c # cs) of
        None \<Rightarrow> c # substitute_tokens cs member
      | Some n \<Rightarrow> member @ substitute_tokens (drop n (c # cs)) member)"
  by pat_completeness auto
termination
proof (relation "measure (\<lambda>(s, member). length s)", goal_cases)
  case 1
  show ?case by simp
next
  case (2 c cs member)
  show ?case by simp
next
  case (3 c cs member n)
  from token_at_Some(2)[OF 3] show ?case by simp
qed

text \<open>At most one white-space character.\<close>

definition space01 :: "string \<Rightarrow> bool" where
  "space01 a = (a = [] \<or> (\<exists>c. a = [c] \<and> is_js_whitespace c))"

text \<open>
  The replacement patterns of \<^verbatim>\<open>String.prototype.replace\<close> that can occur in a member
  name: a dollar sign directly followed by a dollar sign, an ampersand, a backquote or a
  quote.
\<close>

fun has_replacement_pattern :: "string \<Rightarrow> bool" where
  "has_replacement_pattern [] = False"
| "has_replacement_pattern [c] = False"
| "has_replacement_pattern (c # d # r) =
     ((c = CHR ''$'' \<and> (d = CHR ''$'' \<or> d = CHR ''&'' \<or> d = CHR 0x60 \<or> d = CHR 0x27))
      \<or> has_replacement_pattern (d # r))"

text \<open>Whether a placeholder token starts anywhere in the string.\<close>

fun contains_token :: "string \<Rightarrow> bool" where
  "contains_token [] = False"
| "contains_token (c # cs) = (token_at (c # cs) \<noteq> None \<or> contains_token cs)"

text \<open>
  An external-file reference, in the words of the specification: a string that ends in
  the suffix of a code file and contains no placeholder. The README names the suffix
  \<^verbatim>\<open>.js\<close>.
\<close>

definition external_file_reference :: "string \<Rightarrow> bool" where
  "external_file_reference s = (ends_with_js s \<and> \<not> contains_token s)"

section \<open>The loops and the array they push to\<close>

lemma visit_specifiers_prefix:
  "visit_specifiers require rule node specs (acc @ acc') =
     (case visit_specifiers require rule node specs acc' of
        Inl e \<Rightarrow> Inl e | Inr out \<Rightarrow> Inr (acc @ out))"
  by (induction specs arbitrary: acc') (simp_all split: sum.splits)

lemma visit_specifiers_from_empty:
  "visit_specifiers require rule node specs acc =
     (case visit_specifiers require rule node specs [] of
        Inl e \<Rightarrow> Inl e | Inr out \<Rightarrow> Inr (acc @ out))"
  using visit_specifiers_prefix[of require rule node specs acc "[]"] by simp

lemma visit_specifiers_append:
  "visit_specifiers require rule node (xs @ ys) acc =
     (case visit_specifiers require rule node xs acc of
        Inl e \<Rightarrow> Inl e | Inr acc' \<Rightarrow> visit_specifiers require rule node ys acc')"
  by (induction xs arbitrary: acc) (simp_all split: sum.splits)

lemma visit_nodes_prefix:
  "visit_nodes require opts nodes (acc @ acc') =
     (case visit_nodes require opts nodes acc' of
        Inl e \<Rightarrow> Inl e | Inr out \<Rightarrow> Inr (acc @ out))"
proof (induction nodes arbitrary: acc')
  case Nil
  show ?case by simp
next
  case (Cons node nodes)
  show ?case
  proof (cases node)
    case (OtherItem s)
    with Cons[of "acc' @ [node]"] show ?thesis by (simp add: isValidTranformCandidate_def)
  next
    case (ImportDeclaration d)
    show ?thesis
    proof (cases "isValidTranformCandidate opts node")
      case False
      with Cons[of "acc' @ [node]"] show ?thesis by simp
    next
      case True
      show ?thesis
        using True ImportDeclaration Cons
          visit_specifiers_prefix[of require _ d "specifiers d" acc acc']
        by (simp add: Let_def barf_def split: sum.splits)
    qed
  qed
qed

lemma visit_nodes_from_empty:
  "visit_nodes require opts nodes acc =
     (case visit_nodes require opts nodes [] of
        Inl e \<Rightarrow> Inl e | Inr out \<Rightarrow> Inr (acc @ out))"
  using visit_nodes_prefix[of require opts nodes acc "[]"] by simp

lemma visit_nodes_append:
  "visit_nodes require opts (xs @ ys) acc =
     (case visit_nodes require opts xs acc of
        Inl e \<Rightarrow> Inl e | Inr acc' \<Rightarrow> visit_nodes require opts ys acc')"
  by (induction xs arbitrary: acc)
     (simp_all add: Let_def barf_def split: sum.splits ModuleItem.splits)

section \<open>Evaluating the plugin on concrete trees\<close>

lemmas eval_regex =
  match_placeholder_def canonicalize_def opt_whitespace_def is_js_whitespace_def
  is_js_file_def ends_with_js_def has_template_char_def char_of_eq_iff

lemmas eval_token =
  token_at_def placeholder_token_def ascii_lower_def opt_whitespace_def is_js_whitespace_def
  char_of_eq_iff

lemma PluginTransformImport_apply:
  "PluginTransformImport raw key = map_option with_defaults (raw key)"
  by (simp add: PluginTransformImport_def)

lemma dom_PluginTransformImport: "dom (PluginTransformImport raw) = dom raw"
  by (auto simp: PluginTransformImport_def)

lemmas eval_visit =
  visitModuleItems_def PluginTransformImport_apply dom_PluginTransformImport
  with_defaults_def only_transform_def
  isValidTranformCandidate_def has_property_def get_property_def inherited_property_def
  object_prototype_keys_def ToString_def isDefaultImportExist_def doesImportedValueExist_def
  actualImportVariable_def newSpecifier_def copyNode_def styleNode_def
  nameImportsFilteredNode_def barf_def
  import_from_def import_node_def import_named_def import_as_def import_default_def
  import_namespace_def Ident_def

lemma resolve_lib_A:
  "transformImportPath require (TString ''lib/${member}'') ''A'' = Inr (Some ''lib/A'')"
  by (simp add: transformImportPath_def eval_regex)

lemma resolve_lib_B:
  "transformImportPath require (TString ''lib/${member}'') ''B'' = Inr (Some ''lib/B'')"
  by (simp add: transformImportPath_def eval_regex)

lemma resolve_antd_Button:
  "transformImportPath require (TString ''antd/es/${member}'') ''Button''
   = Inr (Some ''antd/es/Button'')"
  by (simp add: transformImportPath_def eval_regex)

lemma resolve_undefined: "transformImportPath require TUndefined member = Inr None"
  by (simp add: transformImportPath_def)

lemma configured_is_candidate:
  assumes "opts key = Some rule" and "lit_value (source d) = Some key"
  shows "isValidTranformCandidate opts (ImportDeclaration d)"
    and "get_property opts (ToString (lit_value (source d))) = rule"
    and "dom opts \<noteq> {}"
  using assms
  by (auto simp: isValidTranformCandidate_def has_property_def get_property_def ToString_def)

lemma visit_nodes_configured:
  assumes "opts key = Some rule" and "lit_value (source d) = Some key"
    and "\<not> (isDefaultImportExist (specifiers d) \<and> preventFullImport rule)"
  shows "visit_nodes require opts (ImportDeclaration d # nodes) acc =
           (case visit_specifiers require rule d (specifiers d) acc of
              Inl e \<Rightarrow> Inl e | Inr acc' \<Rightarrow> visit_nodes require opts nodes acc')"
proof -
  have no: "(isDefaultImportExist (specifiers d) \<and> preventFullImport rule) = False"
    using assms(3) by simp
  show ?thesis
    using configured_is_candidate(1,2)[of opts key rule d] assms(1,2)
    by (simp add: Let_def no)
qed

section \<open>The regular expression and the placeholder token\<close>

lemma of_char_canonicalize:
  "(of_char (canonicalize c) :: nat) =
     (if 97 \<le> (of_char c :: nat) \<and> (of_char c :: nat) \<le> 122
      then of_char c - 32 else of_char c)"
proof -
  have "(of_char c :: nat) < 256"
    by (rule nat_of_char_less_256)
  then have "((of_char c :: nat) - 32) mod 256 = of_char c - 32"
    by (intro mod_less) arith
  then show ?thesis by (simp add: canonicalize_def)
qed

lemma of_char_ascii_lower:
  "(of_char (ascii_lower c) :: nat) =
     (if 65 \<le> (of_char c :: nat) \<and> (of_char c :: nat) \<le> 90
      then of_char c + 32 else of_char c)"
  by (simp add: ascii_lower_def)

lemma canonicalize_eq_iff:
  assumes "\<not> (65 \<le> (of_char p :: nat) \<and> (of_char p :: nat) \<le> 90)"
  shows "canonicalize c = canonicalize p \<longleftrightarrow> ascii_lower c = p"
proof -
  have "canonicalize c = canonicalize p
          \<longleftrightarrow> (of_char (canonicalize c) :: nat) = of_char (canonicalize p)"
    by simp
  also have "\<dots> \<longleftrightarrow> (of_char (ascii_lower c) :: nat) = of_char p"
  proof -
    define n where "n = (of_char c :: nat)"
    define k where "k = (of_char p :: nat)"
    have "((if 97 \<le> n \<and> n \<le> 122 then n - 32 else n)
             = (if 97 \<le> k \<and> k \<le> 122 then k - 32 else k))
          \<longleftrightarrow> (if 65 \<le> n \<and> n \<le> 90 then n + 32 else n) = k"
      using assms unfolding k_def[symmetric] by (simp split: if_splits) arith
    then show ?thesis
      unfolding of_char_canonicalize of_char_ascii_lower n_def k_def .
  qed
  also have "\<dots> \<longleftrightarrow> ascii_lower c = p"
    by (rule of_char_eq_iff)
  finally show ?thesis .
qed


lemma ascii_lower_fixed:
  assumes "ascii_lower c = p"
    and "\<not> (97 \<le> (of_char p :: nat) \<and> (of_char p :: nat) \<le> 122)"
  shows "c = p"
proof -
  from assms(1) have "(of_char (ascii_lower c) :: nat) = of_char p" by simp
  with assms(2) have "(of_char c :: nat) = of_char p"
    unfolding of_char_ascii_lower by (simp split: if_splits)
  then show ?thesis by simp
qed

lemma match_literal_ci_iff:
  assumes "\<forall>p \<in> set pat. \<not> (65 \<le> (of_char p :: nat) \<and> (of_char p :: nat) \<le> 90)"
  shows "match_literal_ci pat s = Some r \<longleftrightarrow> (\<exists>w. s = w @ r \<and> map ascii_lower w = pat)"
  using assms
proof (induction pat s rule: match_literal_ci.induct)
  case (1 s)
  show ?case by auto
next
  case (2 p ps)
  show ?case by auto
next
  case (3 p ps c cs)
  have "(\<exists>w. c # cs = w @ r \<and> map ascii_lower w = p # ps)
          \<longleftrightarrow> ascii_lower c = p \<and> (\<exists>w'. cs = w' @ r \<and> map ascii_lower w' = ps)"
    by (auto simp: map_eq_Cons_conv Cons_eq_append_conv)
  with 3 show ?case
    by (simp add: canonicalize_eq_iff)
qed

lemma whitespace_not_word:
  "is_js_whitespace c \<Longrightarrow> ascii_lower c \<noteq> CHR ''m'' \<and> ascii_lower c \<noteq> CHR ''r'' \<and> c \<noteq> CHR ''}''"
  by (auto simp: is_js_whitespace_def ascii_lower_def)

lemma opt_whitespace_decomp: "\<exists>a. space01 a \<and> s = a @ opt_whitespace s"
  by (cases s) (auto simp: opt_whitespace_def space01_def)

lemma opt_whitespace_skip:
  "space01 a \<Longrightarrow> \<not> (\<exists>c cs. x = c # cs \<and> is_js_whitespace c) \<Longrightarrow> x \<noteq> []
     \<Longrightarrow> opt_whitespace (a @ x) = x"
  by (cases x) (auto simp: opt_whitespace_def space01_def)


lemma lower_dollar_brace: "map ascii_lower w = ''${'' \<longleftrightarrow> w = ''${''"
proof
  assume "map ascii_lower w = ''${''"
  then obtain c1 c2 where w: "w = [c1, c2]"
    and c: "ascii_lower c1 = CHR ''$''" "ascii_lower c2 = CHR ''{''"
    by (auto simp: map_eq_Cons_conv)
  from c have "c1 = CHR ''$''" "c2 = CHR ''{''"
    by (auto dest!: ascii_lower_fixed)
  with w show "w = ''${''" by simp
next
  assume "w = ''${''"
  then show "map ascii_lower w = ''${''" by (simp add: ascii_lower_def)
qed

lemma lower_close_brace: "map ascii_lower w = ''}'' \<longleftrightarrow> w = ''}''"
proof
  assume "map ascii_lower w = ''}''"
  then obtain c1 where w: "w = [c1]" and c: "ascii_lower c1 = CHR ''}''"
    by (auto simp: map_eq_Cons_conv)
  from c have "c1 = CHR ''}''"
    by (auto dest!: ascii_lower_fixed)
  with w show "w = ''}''" by simp
next
  assume "w = ''}''"
  then show "map ascii_lower w = ''}''" by (simp add: ascii_lower_def)
qed

lemma member_word_shape:
  assumes "map ascii_lower w = ''member''"
  shows "\<exists>c cs. w = c # cs \<and> ascii_lower c = CHR ''m''"
    and "\<exists>cs c. w = cs @ [c] \<and> ascii_lower c = CHR ''r''"
    and "length w = 6"
proof -
  from assms obtain c1 c2 c3 c4 c5 c6 where w: "w = [c1, c2, c3, c4, c5, c6]"
    and c: "ascii_lower c1 = CHR ''m''" "ascii_lower c6 = CHR ''r''"
    by (auto simp: map_eq_Cons_conv)
  from w c show "\<exists>c cs. w = c # cs \<and> ascii_lower c = CHR ''m''" by simp
  from w c have "w = [c1, c2, c3, c4, c5] @ [c6] \<and> ascii_lower c6 = CHR ''r''" by simp
  then show "\<exists>cs c. w = cs @ [c] \<and> ascii_lower c = CHR ''r''" by blast
  from w show "length w = 6" by simp
qed

lemma match_placeholder_iff:
  "match_placeholder s = Some r \<longleftrightarrow>
     (\<exists>a w b. s = ''${'' @ a @ w @ b @ ''}'' @ r \<and> space01 a \<and> space01 b
              \<and> map ascii_lower w = ''member'')"
  (is "?L \<longleftrightarrow> ?R")
proof
  have p1: "\<forall>p \<in> set ''${''. \<not> (65 \<le> (of_char p :: nat) \<and> (of_char p :: nat) \<le> 90)" by simp
  have p2: "\<forall>p \<in> set ''member''. \<not> (65 \<le> (of_char p :: nat) \<and> (of_char p :: nat) \<le> 90)" by simp
  have p3: "\<forall>p \<in> set ''}''. \<not> (65 \<le> (of_char p :: nat) \<and> (of_char p :: nat) \<le> 90)" by simp
  {
    assume ?L
    then obtain s1 s2 where
      a: "match_literal_ci ''${'' s = Some s1" and
      b: "match_literal_ci ''member'' (opt_whitespace s1) = Some s2" and
      c: "match_literal_ci ''}'' (opt_whitespace s2) = Some r"
      by (auto simp: match_placeholder_def split: option.splits)
    from a have s: "s = ''${'' @ s1"
      unfolding match_literal_ci_iff[OF p1] lower_dollar_brace by simp
    from b[unfolded match_literal_ci_iff[OF p2]]
    obtain w where w: "opt_whitespace s1 = w @ s2" "map ascii_lower w = ''member''"
      by (elim exE conjE)
    from c have r: "opt_whitespace s2 = ''}'' @ r"
      unfolding match_literal_ci_iff[OF p3] lower_close_brace by simp
    obtain x where x: "space01 x" "s1 = x @ opt_whitespace s1"
      using opt_whitespace_decomp[of s1] by blast
    obtain y where y: "space01 y" "s2 = y @ opt_whitespace s2"
      using opt_whitespace_decomp[of s2] by blast
    note s1 = x(2)[unfolded w(1)] and s2 = y(2)[unfolded r]
    have "s = ''${'' @ x @ w @ y @ ''}'' @ r"
      by (subst s, subst s1, subst s2) simp
    with x(1) y(1) w(2) show ?R
      by (intro exI[of _ x] exI[of _ w] exI[of _ y] conjI)
  next
    assume ?R
    then obtain a w b where s: "s = ''${'' @ a @ w @ b @ ''}'' @ r"
      and ab: "space01 a" "space01 b" and w: "map ascii_lower w = ''member''"
      by (elim exE conjE)
    have m1: "match_literal_ci ''${'' s = Some (a @ w @ b @ ''}'' @ r)"
      unfolding match_literal_ci_iff[OF p1] lower_dollar_brace using s by simp
    from member_word_shape(1)[OF w] obtain c cs where
      wc: "w = c # cs" "ascii_lower c = CHR ''m''"
      by (elim exE conjE)
    from wc(2) have "\<not> is_js_whitespace c"
      using whitespace_not_word[of c] by (cases "is_js_whitespace c") simp_all
    then have nw: "\<not> (\<exists>c cs. w @ b @ ''}'' @ r = c # cs \<and> is_js_whitespace c)"
      unfolding wc(1) by simp
    have ne: "w @ b @ ''}'' @ r \<noteq> []" by simp
    have o1: "opt_whitespace (a @ w @ b @ ''}'' @ r) = w @ b @ ''}'' @ r"
      by (rule opt_whitespace_skip[OF ab(1) nw ne])
    have m2: "match_literal_ci ''member'' (w @ b @ ''}'' @ r) = Some (b @ ''}'' @ r)"
      unfolding match_literal_ci_iff[OF p2] by (intro exI[of _ w] conjI refl w)
    have "\<not> is_js_whitespace CHR ''}''"
      by (simp add: is_js_whitespace_def)
    then have nb: "\<not> (\<exists>c cs. ''}'' @ r = c # cs \<and> is_js_whitespace c)"
      by simp
    have o2: "opt_whitespace (b @ ''}'' @ r) = ''}'' @ r"
      by (rule opt_whitespace_skip[OF ab(2) nb]) simp
    have m3: "match_literal_ci ''}'' (''}'' @ r) = Some r"
      unfolding match_literal_ci_iff[OF p3] lower_close_brace by simp
    show ?L
      by (simp only: match_placeholder_def m1 o1 m2 o2 m3 option.case)
  }
qed


lemma space01_rev: "space01 (rev a) = space01 a"
  by (auto simp: space01_def rev_eq_Cons_iff)

lemma placeholder_token_iff:
  "placeholder_token t \<longleftrightarrow>
     (\<exists>a w b. t = ''${'' @ a @ w @ b @ ''}'' \<and> space01 a \<and> space01 b
              \<and> map ascii_lower w = ''member'')"
  (is "?L \<longleftrightarrow> ?R")
proof
  assume ?L
  then have t2: "take 2 t = ''${''" and len: "3 \<le> length t" and l: "last t = CHR ''}''"
    and m: "map ascii_lower (rev (opt_whitespace (rev (opt_whitespace (butlast (drop 2 t))))))
              = ''member''"
    by (simp_all add: placeholder_token_def)
  define u where "u = drop 2 t"
  define inner where "inner = butlast u"
  define x where "x = opt_whitespace inner"
  define w where "w = rev (opt_whitespace (rev x))"
  have t: "t = ''${'' @ u"
    using append_take_drop_id[of 2 t] t2 by (simp add: u_def)
  have une: "u \<noteq> []" using len by (simp add: u_def)
  have lu: "last u = CHR ''}''" using l t une by simp
  have u: "u = inner @ ''}''"
    using append_butlast_last_id[OF une] lu by (simp add: inner_def)
  obtain a where a: "space01 a" "inner = a @ x"
    using opt_whitespace_decomp[of inner] by (auto simp: x_def)
  obtain b' where b': "space01 b'" "rev x = b' @ opt_whitespace (rev x)"
    using opt_whitespace_decomp[of "rev x"] by blast
  have "rev (rev x) = rev (b' @ opt_whitespace (rev x))"
    by (subst b'(2)[symmetric]) (rule refl)
  then have x: "x = w @ rev b'"
    by (simp add: w_def)
  have mw: "map ascii_lower w = ''member''"
    using m by (simp add: w_def x_def inner_def u_def)
  have "t = ''${'' @ a @ w @ rev b' @ ''}''"
    by (subst t, subst u, subst a(2), subst x) simp
  with a(1) b'(1) mw show ?R
    by (intro exI[of _ a] exI[of _ w] exI[of _ "rev b'"] conjI) (simp_all add: space01_rev)
next
  assume ?R
  then obtain a w b where t: "t = ''${'' @ a @ w @ b @ ''}''"
    and ab: "space01 a" "space01 b" and w: "map ascii_lower w = ''member''"
    by (elim exE conjE)
  from member_word_shape(1)[OF w] obtain c cs where
    wc: "w = c # cs" "ascii_lower c = CHR ''m''"
    by (elim exE conjE)
  from member_word_shape(2)[OF w] obtain ds d where
    wd: "w = ds @ [d]" "ascii_lower d = CHR ''r''"
    by (elim exE conjE)
  have nc: "\<not> is_js_whitespace c"
    using wc(2) whitespace_not_word[of c] by (cases "is_js_whitespace c") simp_all
  have nd: "\<not> is_js_whitespace d"
    using wd(2) whitespace_not_word[of d] by (cases "is_js_whitespace d") simp_all
  have inner: "butlast (drop 2 t) = a @ w @ b"
    by (simp add: t butlast_append)
  have "\<not> (\<exists>e es. w @ b = e # es \<and> is_js_whitespace e)"
    unfolding wc(1) using nc by simp
  then have o1: "opt_whitespace (a @ w @ b) = w @ b"
    by (rule opt_whitespace_skip[OF ab(1)]) (simp add: wc(1))
  have "\<not> (\<exists>e es. rev w = e # es \<and> is_js_whitespace e)"
    unfolding wd(1) using nd by simp
  moreover have "space01 (rev b)" "rev w \<noteq> []"
    by (simp_all add: space01_rev ab(2) wc(1))
  ultimately have o2: "opt_whitespace (rev b @ rev w) = rev w"
    using opt_whitespace_skip[of "rev b" "rev w"] by blast
  show ?L
    unfolding placeholder_token_def inner o1 rev_append o2 rev_rev_ident
    using w by (simp add: t)
qed

lemma space01_length: "space01 a \<Longrightarrow> length a = 0 \<or> length a = 1"
  unfolding space01_def by (elim disjE exE conjE) simp_all

lemma placeholder_token_length:
  assumes "placeholder_token t"
  shows "length t = 9 \<or> length t = 10 \<or> length t = 11"
proof -
  from assms obtain a w b where t: "t = ''${'' @ a @ w @ b @ ''}''"
    and ab: "space01 a" "space01 b" and w: "map ascii_lower w = ''member''"
    unfolding placeholder_token_iff by (elim exE conjE)
  have "length t = 9 + length a + length b"
    by (simp add: t member_word_shape(3)[OF w])
  with space01_length[OF ab(1)] space01_length[OF ab(2)] show ?thesis
    by arith
qed

lemma match_placeholder_token:
  "match_placeholder s = Some r \<longleftrightarrow> (\<exists>t. placeholder_token t \<and> s = t @ r)"
  (is "?L \<longleftrightarrow> ?R")
proof
  assume ?L
  then obtain a w b where s: "s = ''${'' @ a @ w @ b @ ''}'' @ r"
    and ab: "space01 a" "space01 b" and w: "map ascii_lower w = ''member''"
    unfolding match_placeholder_iff by (elim exE conjE)
  have "placeholder_token (''${'' @ a @ w @ b @ ''}'')"
    unfolding placeholder_token_iff
    by (intro exI[of _ a] exI[of _ w] exI[of _ b] conjI refl ab w)
  moreover have "s = (''${'' @ a @ w @ b @ ''}'') @ r"
    using s by simp
  ultimately show ?R
    by (intro exI[of _ "''${'' @ a @ w @ b @ ''}''"] conjI)
next
  assume ?R
  then obtain t where t: "placeholder_token t" and s: "s = t @ r"
    by (elim exE conjE)
  from t obtain a w b where t': "t = ''${'' @ a @ w @ b @ ''}''"
    and ab: "space01 a" "space01 b" and w: "map ascii_lower w = ''member''"
    unfolding placeholder_token_iff by (elim exE conjE)
  have "s = ''${'' @ a @ w @ b @ ''}'' @ r"
    using s t' by simp
  then show ?L
    unfolding match_placeholder_iff
    by (intro exI[of _ a] exI[of _ w] exI[of _ b] conjI ab w)
qed


lemma match_placeholder_token_at:
  "match_placeholder s = map_option (\<lambda>n. drop n s) (token_at s)"
proof (cases "token_at s")
  case None
  have "match_placeholder s = None"
  proof (rule ccontr)
    assume "match_placeholder s \<noteq> None"
    then obtain r where "match_placeholder s = Some r" by blast
    then obtain t where t: "placeholder_token t" and s: "s = t @ r"
      unfolding match_placeholder_token by (elim exE conjE)
    from s have "take (length t) s = t" by simp
    with token_at_None[OF None placeholder_token_length[OF t]] t
    show False by simp
  qed
  with None show ?thesis by simp
next
  case (Some n)
  have "s = take n s @ drop n s" by simp
  with token_at_Some(1)[OF Some] have "match_placeholder s = Some (drop n s)"
    unfolding match_placeholder_token by blast
  with Some show ?thesis by simp
qed

lemma GetSubstitution_no_pattern:
  "\<not> has_replacement_pattern rep \<Longrightarrow> GetSubstitution matched preceding following rep = rep"
  by (induction matched preceding following rep rule: GetSubstitution.induct) auto

lemma replace_global_substitute_tokens:
  "\<not> has_replacement_pattern member
     \<Longrightarrow> replace_global preceding s member = substitute_tokens s member"
proof (induction preceding s member rule: replace_global.induct)
  case (1 preceding rep)
  show ?case by simp
next
  case (2 preceding c cs rep)
  note plain = GetSubstitution_no_pattern[OF 2(3)]
  show ?case
  proof (cases "token_at (c # cs)")
    case None
    then have m: "match_placeholder (c # cs) = None"
      by (simp add: match_placeholder_token_at)
    from 2(1)[OF m 2(3)] m None show ?thesis by simp
  next
    case (Some n)
    then have m: "match_placeholder (c # cs) = Some (drop n (c # cs))"
      by (simp add: match_placeholder_token_at)
    from 2(2)[OF m refl 2(3)] m Some show ?thesis
      by (simp add: Let_def plain)
  qed
qed

lemma token_at_dollar:
  assumes "token_at s = Some n"
  shows "CHR ''$'' \<in> set s"
proof -
  from token_at_Some(1)[OF assms] have h: "take 2 (take n s) = ''${''"
    unfolding placeholder_token_def by (elim conjE)
  have "CHR ''$'' \<in> set ''${''" by simp
  then have "CHR ''$'' \<in> set (take 2 (take n s))" unfolding h .
  then have "CHR ''$'' \<in> set (take n s)" by (rule in_set_takeD)
  then show ?thesis by (rule in_set_takeD)
qed

lemma contains_token_template_char: "contains_token s \<Longrightarrow> has_template_char s"
proof (induction s)
  case Nil
  then show ?case by simp
next
  case (Cons c cs)
  show ?case
  proof (cases "token_at (c # cs)")
    case None
    with Cons show ?thesis by (auto simp: has_template_char_def)
  next
    case (Some n)
    from token_at_dollar[OF Some] show ?thesis
      unfolding has_template_char_def by blast
  qed
qed

lemma replace_global_no_token:
  "\<not> contains_token s \<Longrightarrow> replace_global preceding s rep = s"
proof (induction preceding s rep rule: replace_global.induct)
  case (1 preceding rep)
  show ?case by simp
next
  case (2 preceding c cs rep)
  from 2(3) have t: "token_at (c # cs) = None" and r: "\<not> contains_token cs"
    by simp_all
  from t have m: "match_placeholder (c # cs) = None"
    by (simp add: match_placeholder_token_at)
  from 2(1)[OF m r] m show ?case by simp
qed

lemma is_js_file_iff:
  "is_js_file s \<longleftrightarrow> external_file_reference s \<and> \<not> has_template_char s"
  using contains_token_template_char[of s]
  by (auto simp: is_js_file_def external_file_reference_def)

section \<open>Statements and specifiers the loops do handle\<close>

text \<open>
  A statement that is not an import, or an import whose path is neither configured nor
  the name of an inherited property, stays where it is. A default specifier under
  \<^verbatim>\<open>preventFullImport\<close> ends the call with the error that names the module. A default
  specifier is otherwise kept in a declaration of its own with the path unchanged, and a
  namespace specifier is passed over.
\<close>

lemma other_statement_kept:
  assumes "\<not> isValidTranformCandidate opts node" and "dom opts \<noteq> {}"
    and "visitModuleItems require opts pre = Inr o1"
    and "visitModuleItems require opts post = Inr o2"
  shows "visitModuleItems require opts (pre @ node # post) = Inr (o1 @ node # o2)"
proof -
  from assms(2,3,4) have p: "visit_nodes require opts pre [] = Inr o1"
    and q: "visit_nodes require opts post [] = Inr o2"
    by (simp_all add: visitModuleItems_def)
  have "visit_nodes require opts (node # post) o1 = visit_nodes require opts post (o1 @ [node])"
    using assms(1) by simp
  also have "\<dots> = Inr ((o1 @ [node]) @ o2)"
    using visit_nodes_from_empty[of require opts post "o1 @ [node]"] q by simp
  finally have "visit_nodes require opts (pre @ node # post) [] = Inr (o1 @ node # o2)"
    using p by (simp add: visit_nodes_append del: visit_nodes.simps(2))
  with assms(2) show ?thesis by (simp add: visitModuleItems_def)
qed

lemma default_import_refused:
  assumes "opts key = Some rule" and "preventFullImport rule"
    and "lit_value (source d) = Some key"
    and "isDefaultImportExist (specifiers d)"
    and "visitModuleItems require opts pre = Inr o1"
  shows "visitModuleItems require opts (pre @ ImportDeclaration d # post)
           = Inl (FullImportNotAllowed key)"
proof -
  have ne: "dom opts \<noteq> {}" using assms(1) by auto
  with assms(5) have p: "visit_nodes require opts pre [] = Inr o1"
    by (simp add: visitModuleItems_def)
  have "visit_nodes require opts (ImportDeclaration d # post) o1 = Inl (FullImportNotAllowed key)"
    using configured_is_candidate(1,2)[of opts key rule d] assms(1-4)
    by (simp add: Let_def barf_def FullImportNotAllowed_def ToString_def)
  with p have "visit_nodes require opts (pre @ ImportDeclaration d # post) []
                 = Inl (FullImportNotAllowed key)"
    by (simp add: visit_nodes_append del: visit_nodes.simps(2))
  with ne show ?thesis by (simp add: visitModuleItems_def)
qed

lemma default_specifier_kept:
  assumes "spec_type s = ImportDefaultSpecifier"
  shows "visit_specifiers require rule d (xs @ s # ys) [] =
           (case visit_specifiers require rule d xs [] of
              Inl e \<Rightarrow> Inl e
            | Inr o1 \<Rightarrow>
                (case visit_specifiers require rule d ys [] of
                   Inl e \<Rightarrow> Inl e
                 | Inr o2 \<Rightarrow> Inr (o1 @ ImportDeclaration (d\<lparr> specifiers := [s] \<rparr>) # o2)))"
proof (cases "visit_specifiers require rule d xs []")
  case (Inl e)
  then show ?thesis by (simp add: visit_specifiers_append)
next
  case (Inr o1)
  have "visit_specifiers require rule d (s # ys) o1
          = visit_specifiers require rule d ys (o1 @ [nameImportsFilteredNode d s])"
    using assms by simp
  also have "\<dots> = (case visit_specifiers require rule d ys [] of
                       Inl e \<Rightarrow> Inl e
                     | Inr o2 \<Rightarrow> Inr ((o1 @ [nameImportsFilteredNode d s]) @ o2))"
    by (rule visit_specifiers_from_empty)
  finally show ?thesis
    using Inr
    by (simp add: visit_specifiers_append nameImportsFilteredNode_def
             del: visit_specifiers.simps(2) cong: sum.case_cong)
qed

lemma namespace_specifier_skipped:
  assumes "spec_type s = ImportNamespaceSpecifier"
  shows "visit_specifiers require rule d (xs @ s # ys) acc
           = visit_specifiers require rule d (xs @ ys) acc"
proof -
  have "visit_specifiers require rule d (s # ys) a = visit_specifiers require rule d ys a" for a
    using assms by simp
  then show ?thesis
    by (simp add: visit_specifiers_append del: visit_specifiers.simps(2) cong: sum.case_cong)
qed

section \<open>The empty table\<close>

text \<open>
  C5. With an empty configuration table the plugin returns the statement list it was
  given, whatever the list is.
\<close>

theorem C5_empty_table_identity:
  "visitModuleItems require (PluginTransformImport Map.empty) S = Inr S"
  by (simp add: visitModuleItems_def PluginTransformImport_def)

section \<open>Named imports\<close>

text \<open>
  C2. With the table \<^verbatim>\<open>{ "lib": { transform: "lib/${member}" } }\<close> the statement
  \<^verbatim>\<open>import { A, B as C } from 'lib'\<close> becomes \<^verbatim>\<open>import A from 'lib/A'\<close> followed by
  \<^verbatim>\<open>import C from 'lib/B'\<close>: the path is made from the imported name, the default
  specifier binds the local name.
\<close>

theorem C2_named_import_splitting:
  "visitModuleItems require (PluginTransformImport [''lib'' \<mapsto> only_transform ''lib/${member}''])
     [import_from [import_named ''A'', import_as ''B'' ''C''] (Some ''lib'')]
   = Inr [import_from [import_default ''A''] (Some ''lib/A''),
          import_from [import_default ''C''] (Some ''lib/B'')]"
  by (simp add: eval_visit resolve_lib_A resolve_lib_B)

text \<open>
  C3, at \<^verbatim>\<open>import { A, B as C } from 'lib'\<close> with \<^verbatim>\<open>skipDefaultConversion: true\<close>. The
  aliased specifier is kept as a named specifier on the new path. The plain specifier
  \<^verbatim>\<open>{ A }\<close> is turned into a default specifier all the same: line 121 asks for an
  \<^verbatim>\<open>imported\<close> value, which the plain form does not have, while the comment of the option
  (lines 16--19) promises that \<^verbatim>\<open>import { X }\<close> is preserved.
\<close>

theorem C3_plain_specifier_converted:
  "visitModuleItems require
     (PluginTransformImport
        [''lib'' \<mapsto> (only_transform ''lib/${member}'')\<lparr> raw_skipDefaultConversion := Some True \<rparr>])
     [import_from [import_named ''A'', import_as ''B'' ''C''] (Some ''lib'')]
   = Inr [import_from [import_default ''A''] (Some ''lib/A''),
          import_from [import_as ''B'' ''C''] (Some ''lib/B'')]"
  by (simp add: eval_visit resolve_lib_A resolve_lib_B)

section \<open>Style imports\<close>

text \<open>
  C8. Let a configured module have \<^verbatim>\<open>style\<close> set, and let \<open>s\<close> be a named specifier of an
  import declaration \<open>d\<close> of that module. Whenever the plugin returns a list, the list
  holds, at the place of \<open>s\<close> (after what the statements before \<open>d\<close> and the specifiers
  before \<open>s\<close> gave, before what the later ones give), the declaration made for \<open>s\<close>
  and right after it a declaration without specifiers whose path is the resolved path
  followed by \<^verbatim>\<open>/style\<close>.
\<close>

theorem C8_style_import_follows:
  assumes "opts key = Some rule" and "style rule"
    and "lit_value (source d) = Some key"
    and "specifiers d = xs @ s # ys" and "spec_type s = ImportSpecifier"
    and "visitModuleItems require opts (pre @ ImportDeclaration d # post) = Inr out"
  shows "\<exists>v o1 o2 o3 o4.
           visit_nodes require opts pre [] = Inr o1
         \<and> visit_specifiers require rule d xs [] = Inr o2
         \<and> transformImportPath require (transform rule) (actualImportVariable s) = Inr v
         \<and> visit_specifiers require rule d ys [] = Inr o3
         \<and> visit_nodes require opts post [] = Inr o4
         \<and> out = o1 @ o2
              @ [copyNode rule d s v,
                 ImportDeclaration
                   (d\<lparr> source := (source d)\<lparr> lit_value := Some (ToString v @ ''/style'') \<rparr>,
                       specifiers := [] \<rparr>)]
              @ o3 @ o4"
proof -
  have ne: "dom opts \<noteq> {}" using assms(1) by auto
  with assms(6) have run: "visit_nodes require opts (pre @ ImportDeclaration d # post) [] = Inr out"
    by (simp add: visitModuleItems_def)
  then obtain o1 where o1: "visit_nodes require opts pre [] = Inr o1"
    and r1: "visit_nodes require opts (ImportDeclaration d # post) o1 = Inr out"
    by (auto simp: visit_nodes_append split: sum.splits)
  have cand: "isValidTranformCandidate opts (ImportDeclaration d)"
    and rule: "get_property opts (ToString (lit_value (source d))) = rule"
    using configured_is_candidate[of opts key rule d] assms(1,3) by simp_all
  from r1 cand rule obtain acc2 where
    sp: "visit_specifiers require rule d (specifiers d) o1 = Inr acc2"
    and r2: "visit_nodes require opts post acc2 = Inr out"
    by (auto simp: Let_def barf_def split: if_splits sum.splits)
  from sp obtain od where od: "visit_specifiers require rule d (specifiers d) [] = Inr od"
    and acc2: "acc2 = o1 @ od"
    using visit_specifiers_from_empty[of require rule d "specifiers d" o1]
    by (auto split: sum.splits)
  from od assms(4) obtain o2 where o2: "visit_specifiers require rule d xs [] = Inr o2"
    and r3: "visit_specifiers require rule d (s # ys) o2 = Inr od"
    by (auto simp: visit_specifiers_append split: sum.splits)
  from r3 assms(2,5) obtain v where
    v: "transformImportPath require (transform rule) (actualImportVariable s) = Inr v"
    and r4: "visit_specifiers require rule d ys (o2 @ [copyNode rule d s v, styleNode d v]) = Inr od"
    by (auto split: sum.splits)
  from r4 obtain o3 where o3: "visit_specifiers require rule d ys [] = Inr o3"
    and od_eq: "od = (o2 @ [copyNode rule d s v, styleNode d v]) @ o3"
    using visit_specifiers_from_empty[of require rule d ys "o2 @ [copyNode rule d s v, styleNode d v]"]
    by (auto split: sum.splits)
  from r2 obtain o4 where o4: "visit_nodes require opts post [] = Inr o4"
    and out: "out = acc2 @ o4"
    using visit_nodes_from_empty[of require opts post acc2]
    by (auto split: sum.splits)
  from o1 o2 v o3 o4 out acc2 od_eq show ?thesis
    by (simp add: styleNode_def)
qed

text \<open>
  The example of C8: \<^verbatim>\<open>import { Button } from 'antd'\<close> with \<^verbatim>\<open>antd/es/${member}\<close> gives
  \<^verbatim>\<open>import Button from 'antd/es/Button'\<close> and then \<^verbatim>\<open>import 'antd/es/Button/style'\<close>.
\<close>

theorem C8_style_import_follows_witness:
  "visitModuleItems no_files
     (PluginTransformImport
        [''antd'' \<mapsto> (only_transform ''antd/es/${member}'')\<lparr> raw_style := Some True \<rparr>])
     [import_from [import_named ''Button''] (Some ''antd'')]
   = Inr [import_from [import_default ''Button''] (Some ''antd/es/Button''),
          import_from [] (Some ''antd/es/Button/style'')]
   \<and> (\<exists>v. transformImportPath no_files (TString ''antd/es/${member}'') ''Button'' = Inr v
          \<and> [import_from [import_default ''Button''] (Some ''antd/es/Button''),
              import_from [] (Some ''antd/es/Button/style'')]
            = [copyNode
                 (with_defaults ((only_transform ''antd/es/${member}'')\<lparr> raw_style := Some True \<rparr>))
                 (import_node [import_named ''Button''] (Some ''antd'')) (import_named ''Button'') v,
               import_from [] (Some (ToString v @ ''/style''))])"
proof -
  let ?raw = "(only_transform ''antd/es/${member}'')\<lparr> raw_style := Some True \<rparr>"
  let ?opts = "PluginTransformImport [''antd'' \<mapsto> ?raw]"
  let ?d = "import_node [import_named ''Button''] (Some ''antd'')"
  let ?out = "[import_from [import_default ''Button''] (Some ''antd/es/Button''),
               import_from [] (Some ''antd/es/Button/style'')]"
  have a: "?opts ''antd'' = Some (with_defaults ?raw)"
    by (simp add: PluginTransformImport_apply)
  have b: "style (with_defaults ?raw)"
    by (simp add: with_defaults_def only_transform_def)
  have c: "lit_value (source ?d) = Some ''antd''"
    by (simp add: import_node_def)
  have d: "specifiers ?d = [] @ import_named ''Button'' # []"
    by (simp add: import_node_def)
  have e: "spec_type (import_named ''Button'') = ImportSpecifier"
    by (simp add: import_named_def)
  have ok: "visitModuleItems no_files ?opts ([] @ ImportDeclaration ?d # []) = Inr ?out"
    by (simp add: eval_visit resolve_antd_Button)
  have t: "transform (with_defaults ?raw) = TString ''antd/es/${member}''"
    by (simp add: with_defaults_def only_transform_def)
  have m: "actualImportVariable (import_named ''Button'') = ''Button''"
    by (simp add: actualImportVariable_def doesImportedValueExist_def import_named_def Ident_def)
  have s: "ImportDeclaration (?d\<lparr> source := (source ?d)\<lparr> lit_value := Some p \<rparr>, specifiers := [] \<rparr>)
             = import_from [] (Some p)" for p
    by (simp add: import_from_def import_node_def)
  from C8_style_import_follows[of ?opts "''antd''" "with_defaults ?raw" ?d "[]"
      "import_named ''Button''" "[]" no_files "[]" "[]" ?out, OF a b c d e ok]
  have "\<exists>v. transformImportPath no_files (TString ''antd/es/${member}'') ''Button'' = Inr v
          \<and> ?out = [copyNode (with_defaults ?raw) ?d (import_named ''Button'') v,
                     import_from [] (Some (ToString v @ ''/style''))]"
    by (simp add: t m s)
  with ok show ?thesis by (simp add: import_from_def)
qed

section \<open>Imports without specifiers\<close>

text \<open>
  C10. An import declaration of a configured module that has no specifier, such as
  \<^verbatim>\<open>import 'lib'\<close>, leaves nothing in the output: the plugin returns what it returns
  for the list without that statement, and for the statement alone the empty list.
\<close>

theorem C10_side_effect_import_removed:
  assumes "opts key = Some rule" and "preventFullImport rule = False"
    and "lit_value (source d) = Some key" and "specifiers d = []"
  shows "visitModuleItems require opts (pre @ ImportDeclaration d # post)
           = visitModuleItems require opts (pre @ post)
         \<and> visitModuleItems require opts [ImportDeclaration d] = Inr []"
proof -
  have step: "visit_nodes require opts (ImportDeclaration d # nodes) acc
                = visit_nodes require opts nodes acc" for nodes acc
    using visit_nodes_configured[of opts key rule d require nodes acc] assms
    by simp
  have "visit_nodes require opts (pre @ ImportDeclaration d # post) []
          = visit_nodes require opts (pre @ post) []"
    by (simp add: visit_nodes_append step del: visit_nodes.simps(2) cong: sum.case_cong)
  moreover have "visit_nodes require opts [ImportDeclaration d] [] = Inr []"
    by (simp add: step del: visit_nodes.simps(2))
  ultimately show ?thesis
    using configured_is_candidate(3)[of opts key rule d] assms
    by (simp add: visitModuleItems_def)
qed

text \<open>The statement \<^verbatim>\<open>import 'lib'\<close> between two other statements, and alone.\<close>

theorem C10_side_effect_import_removed_witness:
  "visitModuleItems no_files
     (PluginTransformImport [''lib'' \<mapsto> only_transform ''lib/${member}''])
     [OtherItem ''f();'', import_from [] (Some ''lib''), OtherItem ''g();'']
   = Inr [OtherItem ''f();'', OtherItem ''g();'']
   \<and> visitModuleItems no_files
     (PluginTransformImport [''lib'' \<mapsto> only_transform ''lib/${member}''])
     [import_from [] (Some ''lib'')] = Inr []"
proof -
  let ?opts = "PluginTransformImport [''lib'' \<mapsto> only_transform ''lib/${member}'']"
  have a: "?opts ''lib'' = Some (with_defaults (only_transform ''lib/${member}''))"
    by (simp add: PluginTransformImport_apply)
  have b: "preventFullImport (with_defaults (only_transform ''lib/${member}'')) = False"
    by (simp add: with_defaults_def only_transform_def)
  have c: "lit_value (source (import_node [] (Some ''lib''))) = Some ''lib''"
    by (simp add: import_node_def)
  have d: "specifiers (import_node [] (Some ''lib'')) = []"
    by (simp add: import_node_def)
  have e: "visitModuleItems no_files ?opts [OtherItem ''f();'', OtherItem ''g();'']
             = Inr [OtherItem ''f();'', OtherItem ''g();'']"
    by (simp add: visitModuleItems_def dom_PluginTransformImport isValidTranformCandidate_def)
  from C10_side_effect_import_removed[of ?opts "''lib''" _ "import_node [] (Some ''lib'')"
      no_files "[OtherItem ''f();'']" "[OtherItem ''g();'']", OF a b c d] e
  show ?thesis by (simp add: import_from_def)
qed

section \<open>Namespace imports\<close>

text \<open>
  C1, at \<^verbatim>\<open>import * as NS from 'lib'\<close> with \<^verbatim>\<open>preventFullImport: true\<close>. Line 107 looks
  for \<^verbatim>\<open>ImportDefaultSpecifier\<close> only, so nothing is thrown; the statement is then lost,
  since the inner loop has no branch for a namespace specifier.
\<close>

theorem C1_namespace_import_not_refused:
  "visitModuleItems no_files
     (PluginTransformImport
        [''lib'' \<mapsto> (only_transform ''lib/${member}'')\<lparr> raw_preventFullImport := Some True \<rparr>])
     [import_from [import_namespace ''NS''] (Some ''lib'')]
   = Inr []"
  by (simp add: eval_visit)

text \<open>
  C4, at \<^verbatim>\<open>import * as NS from 'lib'\<close> with \<^verbatim>\<open>preventFullImport\<close> left out: the statement
  is not kept, the output is empty.
\<close>

theorem C4_namespace_import_dropped:
  "visitModuleItems no_files
     (PluginTransformImport [''lib'' \<mapsto> only_transform ''lib/${member}''])
     [import_from [import_namespace ''NS''] (Some ''lib'')]
   = Inr []"
  by (simp add: eval_visit)

section \<open>Modules that are not configured\<close>

text \<open>
  C6, at \<^verbatim>\<open>import { a } from 'constructor'\<close> with only \<^verbatim>\<open>lib\<close> configured: the operator
  \<^verbatim>\<open>in\<close> finds the inherited property \<^verbatim>\<open>constructor\<close>, the statement is rewritten with
  the fields of that property, all \<^verbatim>\<open>undefined\<close>, and its path becomes \<^verbatim>\<open>undefined\<close>.
\<close>

theorem C6_inherited_property_taken_for_module:
  "visitModuleItems no_files
     (PluginTransformImport [''lib'' \<mapsto> only_transform ''lib/${member}''])
     [import_from [import_named ''a''] (Some ''constructor'')]
   = Inr [import_from [import_default ''a''] None]"
  by (simp add: eval_visit resolve_undefined)

section \<open>Transform functions\<close>

text \<open>
  C9, as the claim states it: every failure of a callable template would reach the
  caller as a \<^verbatim>\<open>TransformFunctionError\<close>. An exception thrown by the function itself is
  not one.
\<close>

theorem C9_callable_outcomes_counterexample:
  "transformImportPath no_files (TFunction (\<lambda>m. Throws ''boom'')) ''Row''
     = Inl (CalleeError ''boom'')
   \<and> \<not> (\<exists>reference. TransformFunctionError reference (CalleeError ''boom''))"
  by (simp add: transformImportPath_def call_transform_def TransformFunctionError_def)

text \<open>
  A reference to a \<^verbatim>\<open>.js\<close> file that holds no placeholder but one of the characters
  \<^verbatim>\<open>$\<close>, \<^verbatim>\<open>{\<close>, \<^verbatim>\<open>}\<close> is not loaded: line 47 tests for these characters, the string is
  taken as a pattern and comes back as it is.
\<close>

theorem js_reference_with_brace_not_loaded:
  "external_file_reference ''lib/{x}/member.js''
   \<and> transformImportPath (\<lambda>path. ExportsFunction (\<lambda>m. Returns (''lib/'' @ m)))
         (TString ''lib/{x}/member.js'') ''Row''
       = Inr (Some ''lib/{x}/member.js'')"
  by (simp add: transformImportPath_def external_file_reference_def eval_regex eval_token)

text \<open>
  C9, amended. A function given as template is called with the member name; what it
  returns is the result, and what it throws reaches the caller as thrown. An
  external-file reference that contains none of \<^verbatim>\<open>$\<close>, \<^verbatim>\<open>{\<close>, \<^verbatim>\<open>}\<close> is loaded: a file
  that cannot be loaded, or that exports something that is not a function, ends in an
  error of \<^verbatim>\<open>barf\<close> that names the file, and an exported function is called as above.
  An external-file reference that contains one of these characters is not loaded, and
  the result is the reference itself. These are all the outcomes.
\<close>

theorem C9_callable_outcomes:
  "(f member = Returns p \<longrightarrow>
      transformImportPath require (TFunction f) member = Inr (Some p))
   \<and> (f member = Throws x \<longrightarrow>
      transformImportPath require (TFunction f) member = Inl (CalleeError x))
   \<and> (external_file_reference s \<and> \<not> has_template_char s \<and> require s = RequireThrows \<longrightarrow>
      transformImportPath require (TString s) member
        = Inl (PluginError (''swc-plugin-transform-imports: failed to require transform file '' @ s)))
   \<and> (external_file_reference s \<and> \<not> has_template_char s \<and> require s = ExportsOther \<longrightarrow>
      transformImportPath require (TString s) member
        = Inl (PluginError (''swc-plugin-transform-imports: expected transform function to be exported from '' @ s)))
   \<and> (external_file_reference s \<and> \<not> has_template_char s
        \<and> require s = ExportsFunction g \<and> g member = Returns p \<longrightarrow>
      transformImportPath require (TString s) member = Inr (Some p))
   \<and> (external_file_reference s \<and> \<not> has_template_char s
        \<and> require s = ExportsFunction g \<and> g member = Throws x \<longrightarrow>
      transformImportPath require (TString s) member = Inl (CalleeError x))
   \<and> (external_file_reference s \<and> has_template_char s \<longrightarrow>
      transformImportPath require (TString s) member = Inr (Some s))
   \<and> TransformFunctionError s
        (PluginError (''swc-plugin-transform-imports: failed to require transform file '' @ s))
   \<and> TransformFunctionError s
        (PluginError (''swc-plugin-transform-imports: expected transform function to be exported from '' @ s))
   \<and> \<not> TransformFunctionError s (CalleeError x)"
proof -
  have ne: "external_file_reference s \<Longrightarrow> s \<noteq> []"
    by (auto simp: external_file_reference_def ends_with_js_def)
  have js: "external_file_reference s \<Longrightarrow> \<not> has_template_char s \<Longrightarrow> is_js_file s"
    by (simp add: is_js_file_iff)
  have pat: "external_file_reference s \<Longrightarrow> has_template_char s
               \<Longrightarrow> transformImportPath require (TString s) member = Inr (Some s)"
    using ne by (simp add: transformImportPath_def is_js_file_iff replace_global_no_token
                           external_file_reference_def)
  show ?thesis
    using ne js pat
    by (auto simp: transformImportPath_def call_transform_def barf_def TransformFunctionError_def)
qed

text \<open>
  Each outcome of C9 at a concrete template: a function that returns, a function
  that throws, a file that cannot be loaded, a file that exports no function, a file
  that exports either function, and a reference with braces.
\<close>

theorem C9_callable_outcomes_witness:
  "transformImportPath no_files (TFunction (\<lambda>m. Returns (''lib/'' @ m))) ''Row''
     = Inr (Some ''lib/Row'')
   \<and> transformImportPath no_files (TFunction (\<lambda>m. Throws ''boom'')) ''Row''
     = Inl (CalleeError ''boom'')
   \<and> external_file_reference ''./transform.js'' \<and> \<not> has_template_char ''./transform.js''
   \<and> transformImportPath no_files (TString ''./transform.js'') ''Row''
     = Inl (PluginError
         ''swc-plugin-transform-imports: failed to require transform file ./transform.js'')
   \<and> transformImportPath (\<lambda>path. ExportsOther) (TString ''./transform.js'') ''Row''
     = Inl (PluginError
         ''swc-plugin-transform-imports: expected transform function to be exported from ./transform.js'')
   \<and> transformImportPath (\<lambda>path. ExportsFunction (\<lambda>m. Returns (''lib/'' @ m)))
       (TString ''./transform.js'') ''Row''
     = Inr (Some ''lib/Row'')
   \<and> transformImportPath (\<lambda>path. ExportsFunction (\<lambda>m. Throws ''boom''))
       (TString ''./transform.js'') ''Row''
     = Inl (CalleeError ''boom'')
   \<and> external_file_reference ''lib/{x}/member.js'' \<and> has_template_char ''lib/{x}/member.js''
   \<and> transformImportPath (\<lambda>path. ExportsFunction (\<lambda>m. Returns (''lib/'' @ m)))
       (TString ''lib/{x}/member.js'') ''Row''
     = Inr (Some ''lib/{x}/member.js'')"
proof -
  have js: "external_file_reference ''./transform.js''" "\<not> has_template_char ''./transform.js''"
    by (simp_all add: external_file_reference_def eval_regex eval_token)
  have br: "external_file_reference ''lib/{x}/member.js''" "has_template_char ''lib/{x}/member.js''"
    by (simp_all add: external_file_reference_def eval_regex eval_token)
  note fn = C9_callable_outcomes[of "\<lambda>m. Returns (''lib/'' @ m)" "''Row''" "''lib/Row''" no_files
      "''boom''" "''./transform.js''" "\<lambda>m. Returns (''lib/'' @ m)"]
  note th = C9_callable_outcomes[of "\<lambda>m. Throws ''boom''" "''Row''" "''lib/Row''" no_files
      "''boom''" "''./transform.js''" "\<lambda>m. Throws ''boom''"]
  note ot = C9_callable_outcomes[of "\<lambda>m. Throws ''boom''" "''Row''" "''lib/Row''"
      "\<lambda>path. ExportsOther" "''boom''" "''./transform.js''" "\<lambda>m. Throws ''boom''"]
  note ef = C9_callable_outcomes[of "\<lambda>m. Throws ''boom''" "''Row''" "''lib/Row''"
      "\<lambda>path. ExportsFunction (\<lambda>m. Returns (''lib/'' @ m))" "''boom''" "''./transform.js''"
      "\<lambda>m. Returns (''lib/'' @ m)"]
  note et = C9_callable_outcomes[of "\<lambda>m. Throws ''boom''" "''Row''" "''lib/Row''"
      "\<lambda>path. ExportsFunction (\<lambda>m. Throws ''boom'')" "''boom''" "''./transform.js''"
      "\<lambda>m. Throws ''boom''"]
  note bp = C9_callable_outcomes[of "\<lambda>m. Throws ''boom''" "''Row''" "''lib/Row''"
      "\<lambda>path. ExportsFunction (\<lambda>m. Returns (''lib/'' @ m))" "''boom''" "''lib/{x}/member.js''"
      "\<lambda>m. Returns (''lib/'' @ m)"]
  from fn th ot ef et bp js br show ?thesis
    by (simp add: no_files_def)
qed

section \<open>Literal templates\<close>

text \<open>
  C7, as the claim states it: for every template that is a string and not the name of a
  \<^verbatim>\<open>.js\<close> file the result would be the template with its tokens replaced. For the empty
  template the code returns \<^verbatim>\<open>undefined\<close> (line 42).
\<close>

theorem C7_literal_template_counterexample:
  "\<not> is_js_file []
   \<and> transformImportPath no_files (TString []) ''A''
       \<noteq> Inr (Some (substitute_tokens [] ''A''))"
  by (simp add: transformImportPath_def is_js_file_def ends_with_js_def)

text \<open>
  A member name is used as the replacement pattern of \<^verbatim>\<open>replace\<close>: in the name \<^verbatim>\<open>$$\<close>,
  a valid identifier, the two dollar signs stand for one.
\<close>

theorem replacement_pattern_in_member_name:
  "transformImportPath no_files (TString ''lib/${member}'') ''$$'' = Inr (Some ''lib/$'')
   \<and> substitute_tokens ''lib/${member}'' ''$$'' = ''lib/$$''"
  by (simp add: transformImportPath_def eval_regex eval_token)

text \<open>
  The other three patterns: \<^verbatim>\<open>$&\<close> comes out as the token itself, \<^verbatim>\<open>$\<close> with a backquote
  as the text before the token, \<^verbatim>\<open>$\<close> with a quote as the text after it.
\<close>

theorem other_replacement_patterns:
  "transformImportPath no_files (TString ''lib/${member}'') ''$&'' = Inr (Some ''lib/${member}'')
   \<and> transformImportPath no_files (TString ''lib/${member}'') [CHR ''$'', CHR 0x60]
       = Inr (Some ''lib/lib/'')
   \<and> transformImportPath no_files (TString ''lib/${member}/x'') [CHR ''$'', CHR 0x27]
       = Inr (Some ''lib//x/x'')"
  by (simp add: transformImportPath_def eval_regex)

text \<open>
  C7, amended. The empty template gives no path. For a template that is not empty and
  not the name of a \<^verbatim>\<open>.js\<close> file, and a member name that holds none of the four
  replacement patterns, the result is the template in which every placeholder token,
  read from left to right, is replaced by the member name and every other character is
  kept.
\<close>

theorem C7_literal_template:
  "transformImportPath require (TString []) member = Inr None
   \<and> (s \<noteq> [] \<and> \<not> is_js_file s \<and> \<not> has_replacement_pattern member \<longrightarrow>
        transformImportPath require (TString s) member
          = Inr (Some (substitute_tokens s member)))"
  by (simp add: transformImportPath_def replace_global_substitute_tokens)

text \<open>
  Templates and member names for C7: the template of the README with a plain name and
  with two names that hold a dollar sign but no pattern, and a template with a token in
  upper case and with spaces, which ends in \<^verbatim>\<open>.js\<close> and is still a pattern because it
  holds a token.
\<close>

theorem C7_literal_template_witness:
  "''lib/${member}'' \<noteq> [] \<and> \<not> is_js_file ''lib/${member}''
   \<and> \<not> has_replacement_pattern ''A''
   \<and> transformImportPath no_files (TString ''lib/${member}'') ''A'' = Inr (Some ''lib/A'')
   \<and> \<not> has_replacement_pattern ''$''
   \<and> transformImportPath no_files (TString ''lib/${member}'') ''$'' = Inr (Some ''lib/$'')
   \<and> \<not> has_replacement_pattern ''$scope''
   \<and> transformImportPath no_files (TString ''lib/${member}'') ''$scope''
       = Inr (Some ''lib/$scope'')
   \<and> \<not> is_js_file ''a/${ MEMBER }/${member}.js''
   \<and> \<not> has_replacement_pattern ''Row''
   \<and> transformImportPath no_files (TString ''a/${ MEMBER }/${member}.js'') ''Row''
       = Inr (Some ''a/Row/Row.js'')"
proof -
  have a: "\<not> is_js_file ''lib/${member}''" and b: "\<not> is_js_file ''a/${ MEMBER }/${member}.js''"
    by (simp_all add: eval_regex)
  have c: "substitute_tokens ''lib/${member}'' m = ''lib/'' @ m" for m
    by (simp add: eval_token)
  have d: "substitute_tokens ''a/${ MEMBER }/${member}.js'' ''Row'' = ''a/Row/Row.js''"
    by (simp add: eval_token)
  from C7_literal_template[of no_files "''A''" "''lib/${member}''"]
       C7_literal_template[of no_files "''$''" "''lib/${member}''"]
       C7_literal_template[of no_files "''$scope''" "''lib/${member}''"]
       C7_literal_template[of no_files "''Row''" "''a/${ MEMBER }/${member}.js''"] a b c d
  show ?thesis by simp
qed

end
